theory Spec2Isabelle
  imports Main
begin

section \<open>Python values read by the notebooks\<close>

text \<open>
  The notebooks handle the values that \<^verbatim>\<open>json.load\<close> (and the JSON loader of the
  \<^verbatim>\<open>datasets\<close> library) returns: \<^verbatim>\<open>None\<close>, booleans, integers, floats, strings, lists
  and dictionaries with string keys.

  A Python \<^verbatim>\<open>str\<close> is modelled as the list of its code points, taken from the type
  \<^typ>\<open>char\<close> (code points 0 to 255). A Python \<^verbatim>\<open>float\<close> is carried as the text that
  \<^verbatim>\<open>repr\<close> gives for it (\<^verbatim>\<open>repr\<close> determines the float); the notebooks' own code does
  no float arithmetic. A dictionary is an association list in insertion order.
\<close>

type_synonym pyfloat = string

datatype json =
    JNull
  | JBool bool
  | JInt int
  | JFloat pyfloat
  | JStr string
  | JList "json list"
  | JObj "(string \<times> json) list"

datatype error =
    KeyError json
  | IndexError
  | TypeError
  | AttributeError
  | FileNotFoundError
  | IsADirectoryError
  | NotADirectoryError
  | JSONDecodeError

abbreviation newline :: char where
  "newline \<equiv> CHR 0x0A"

abbreviation backslash :: char where
  "backslash \<equiv> CHR 0x5C"

abbreviation dquote :: char where
  "dquote \<equiv> CHR 0x22"

abbreviation squote :: char where
  "squote \<equiv> CHR 0x27"

subsection \<open>Subscription and iteration\<close>

text \<open>\<^verbatim>\<open>v[key]\<close> with a string key: a dictionary looks the key up and raises KeyError when
  it is absent; a list or a string refuses a string index; the other values
  are not subscriptable.\<close>

fun getitem_str :: "json \<Rightarrow> string \<Rightarrow> error + json" where
  "getitem_str (JObj kvs) key =
     (case map_of kvs key of None \<Rightarrow> Inl (KeyError (JStr key)) | Some v \<Rightarrow> Inr v)"
| "getitem_str v key = Inl TypeError"

text \<open>\<^verbatim>\<open>v[i]\<close> with the non-negative index that \<^verbatim>\<open>enumerate\<close> produces: a list gives its
  element, a string the one-character string at that position, both raise IndexError out
  of range; a dictionary (whose keys are strings) raises KeyError.\<close>

fun getitem_int :: "json \<Rightarrow> nat \<Rightarrow> error + json" where
  "getitem_int (JList xs) i = (if i < length xs then Inr (xs ! i) else Inl IndexError)"
| "getitem_int (JStr s) i = (if i < length s then Inr (JStr [s ! i]) else Inl IndexError)"
| "getitem_int (JObj kvs) i = Inl (KeyError (JInt (int i)))"
| "getitem_int v i = Inl TypeError"

text \<open>The items a \<^verbatim>\<open>for\<close> loop draws from a value: the elements of a list, the characters
  of a string, the keys of a dictionary; the other values are not iterable.\<close>

fun py_iter :: "json \<Rightarrow> error + json list" where
  "py_iter (JList xs) = Inr xs"
| "py_iter (JStr s) = Inr (map (\<lambda>c. JStr [c]) s)"
| "py_iter (JObj kvs) = Inr (map (\<lambda>kv. JStr (fst kv)) kvs)"
| "py_iter v = Inl TypeError"

text \<open>The items of a sequence (a list or a string), the values an integer index can reach.\<close>

fun seq_items :: "json \<Rightarrow> json list option" where
  "seq_items (JList xs) = Some xs"
| "seq_items (JStr s) = Some (map (\<lambda>c. JStr [c]) s)"
| "seq_items v = None"

subsection \<open>Conversion to text: \<^verbatim>\<open>str\<close> and \<^verbatim>\<open>repr\<close>\<close>

fun show_nat :: "nat \<Rightarrow> string" where
  "show_nat n =
     (if n < 10 then [''0123456789'' ! n]
      else show_nat (n div 10) @ [''0123456789'' ! (n mod 10)])"

declare show_nat.simps [simp del]

definition show_int :: "int \<Rightarrow> string" where
  "show_int i = (if i < 0 then CHR ''-'' # show_nat (nat (- i)) else show_nat (nat i))"

definition hexdigit :: "nat \<Rightarrow> char" where
  "hexdigit n = ''0123456789abcdef'' ! (n mod 16)"

definition hex2 :: "nat \<Rightarrow> string" where
  "hex2 n = [hexdigit (n div 16), hexdigit n]"

text \<open>\<^verbatim>\<open>str.isprintable\<close> on one code point below 256: the ASCII range from space to tilde,
  and the Latin-1 range without the no-break space and the soft hyphen.\<close>

definition printable :: "char \<Rightarrow> bool" where
  "printable c =
     (let n = (of_char c :: nat) in (32 \<le> n \<and> n < 127) \<or> (161 \<le> n \<and> n \<noteq> 173))"

definition repr_char :: "char \<Rightarrow> char \<Rightarrow> string" where
  "repr_char quote c =
     (if c = quote \<or> c = backslash then [backslash, c]
      else if c = CHR 0x09 then [backslash, CHR ''t'']
      else if c = newline then [backslash, CHR ''n'']
      else if c = CHR 0x0D then [backslash, CHR ''r'']
      else if printable c then [c]
      else backslash # CHR ''x'' # hex2 (of_char c))"

definition repr_str :: "string \<Rightarrow> string" where
  "repr_str s =
     (let quote = (if squote \<in> set s \<and> dquote \<notin> set s then dquote else squote)
      in quote # concat (map (repr_char quote) s) @ [quote])"

fun join :: "string \<Rightarrow> string list \<Rightarrow> string" where
  "join sep [] = []"
| "join sep [x] = x"
| "join sep (x # y # ys) = x @ sep @ join sep (y # ys)"

fun py_repr :: "json \<Rightarrow> string" where
  "py_repr JNull = ''None''"
| "py_repr (JBool b) = (if b then ''True'' else ''False'')"
| "py_repr (JInt i) = show_int i"
| "py_repr (JFloat t) = t"
| "py_repr (JStr s) = repr_str s"
| "py_repr (JList xs) = ''['' @ join '', '' (map py_repr xs) @ '']''"
| "py_repr (JObj kvs) =
     ''{'' @ join '', '' (map (\<lambda>kv. repr_str (fst kv) @ '': '' @ py_repr (snd kv)) kvs) @ ''}''"

text \<open>What an f-string writes for \<^verbatim>\<open>{v}\<close>: \<^verbatim>\<open>str(v)\<close>, which is the string itself for a
  string and \<^verbatim>\<open>repr(v)\<close> for the other values.\<close>

fun py_str :: "json \<Rightarrow> string" where
  "py_str (JStr s) = s"
| "py_str v = py_repr v"

section \<open>The NeMo notebook: PubMedQA records to JSON lines\<close>

subsection \<open>\<^verbatim>\<open>form_question\<close>\<close>

text \<open>The loop \<^verbatim>\<open>for i, label in enumerate(obj['LABELS'])\<close>: each round looks
  \<^verbatim>\<open>obj['CONTEXTS']\<close> up again, indexes it with \<^verbatim>\<open>i\<close> and appends the text and a newline
  to \<^verbatim>\<open>st\<close>.\<close>

fun form_question_loop :: "json \<Rightarrow> nat \<Rightarrow> json list \<Rightarrow> string \<Rightarrow> error + string" where
  "form_question_loop obj i [] st = Inr st"
| "form_question_loop obj i (label # rest) st =
     (case getitem_str obj ''CONTEXTS'' of
        Inl e \<Rightarrow> Inl e
      | Inr contexts \<Rightarrow>
          (case getitem_int contexts i of
             Inl e \<Rightarrow> Inl e
           | Inr c \<Rightarrow> form_question_loop obj (Suc i) rest (st @ py_str c @ [newline])))"

definition form_question :: "json \<Rightarrow> error + string" where
  "form_question obj =
     (let st = '''' in
      case getitem_str obj ''QUESTION'' of
        Inl e \<Rightarrow> Inl e
      | Inr question \<Rightarrow>
          (let st = st @ ''QUESTION:'' @ py_str question @ [newline];
               st = st @ ''CONTEXT: ''
           in case getitem_str obj ''LABELS'' of
                Inl e \<Rightarrow> Inl e
              | Inr labels \<Rightarrow>
                  (case py_iter labels of
                     Inl e \<Rightarrow> Inl e
                   | Inr items \<Rightarrow>
                       (case form_question_loop obj 0 items st of
                          Inl e \<Rightarrow> Inl e
                        | Inr st \<Rightarrow>
                            Inr (st @ ''TARGET: the answer to the question given the context is (yes|no|maybe): '')))))"

subsection \<open>\<^verbatim>\<open>json.dumps\<close> and \<^verbatim>\<open>write_jsonl\<close>\<close>

text \<open>\<^verbatim>\<open>json.dumps\<close> with its default arguments: \<^verbatim>\<open>ensure_ascii\<close> escapes every character
  outside the range from space to tilde, the separators are a comma and a colon, each
  followed by a space, and nothing is indented.\<close>

definition json_escape_char :: "char \<Rightarrow> string" where
  "json_escape_char c =
     (if c = dquote then [backslash, dquote]
      else if c = backslash then [backslash, backslash]
      else if c = newline then [backslash, CHR ''n'']
      else if c = CHR 0x0D then [backslash, CHR ''r'']
      else if c = CHR 0x09 then [backslash, CHR ''t'']
      else if c = CHR 0x08 then [backslash, CHR ''b'']
      else if c = CHR 0x0C then [backslash, CHR ''f'']
      else if 32 \<le> (of_char c :: nat) \<and> (of_char c :: nat) < 127 then [c]
      else backslash # CHR ''u'' # ''00'' @ hex2 (of_char c))"

definition json_encode_str :: "string \<Rightarrow> string" where
  "json_encode_str s = dquote # concat (map json_escape_char s) @ [dquote]"

definition json_encode_float :: "pyfloat \<Rightarrow> string" where
  "json_encode_float t =
     (if t = ''nan'' then ''NaN''
      else if t = ''inf'' then ''Infinity''
      else if t = ''-inf'' then ''-Infinity''
      else t)"

fun json_dumps :: "json \<Rightarrow> string" where
  "json_dumps JNull = ''null''"
| "json_dumps (JBool b) = (if b then ''true'' else ''false'')"
| "json_dumps (JInt i) = show_int i"
| "json_dumps (JFloat t) = json_encode_float t"
| "json_dumps (JStr s) = json_encode_str s"
| "json_dumps (JList xs) = ''['' @ join '', '' (map json_dumps xs) @ '']''"
| "json_dumps (JObj kvs) =
     ''{'' @ join '', ''
        (map (\<lambda>kv. json_encode_str (fst kv) @ '': '' @ json_dumps (snd kv)) kvs) @ ''}''"

text \<open>The values \<^verbatim>\<open>json.load\<close> can return: the keys of a dictionary are distinct, and the
  text of a float is \<^verbatim>\<open>nan\<close>, \<^verbatim>\<open>inf\<close>, \<^verbatim>\<open>-inf\<close> or made of digits, sign, point and
  exponent mark.\<close>

definition float_text :: "pyfloat \<Rightarrow> bool" where
  "float_text t =
     (t = ''nan'' \<or> t = ''inf'' \<or> t = ''-inf'' \<or>
      (t \<noteq> [] \<and> list_all (\<lambda>c. c \<in> set ''0123456789.e+-'') t))"

fun wf_json :: "json \<Rightarrow> bool" where
  "wf_json (JFloat t) = float_text t"
| "wf_json (JList xs) = list_all wf_json xs"
| "wf_json (JObj kvs) = (distinct (map fst kvs) \<and> list_all (\<lambda>kv. wf_json (snd kv)) kvs)"
| "wf_json v = True"

text \<open>The file system: the text of each file and the paths that name a directory, both
  under the path as it is written. A path without a directory part lies in the current
  directory; \<^verbatim>\<open>.\<close> and the root always exist. Links, \<^verbatim>\<open>..\<close>, two spellings of one
  file, permissions and a full disk are not part of the model.\<close>

record fs =
  files :: "string \<rightharpoonup> string"
  dirs :: "string set"

abbreviation slash :: char where
  "slash \<equiv> CHR ''/''"

definition rstrip_slashes :: "string \<Rightarrow> string" where
  "rstrip_slashes p = rev (dropWhile (\<lambda>c. c = slash) (rev p))"

text \<open>\<^verbatim>\<open>posixpath.dirname\<close>: the path up to its last slash, without the slashes at its end
  unless it is made of slashes only.\<close>

definition dirname :: "string \<Rightarrow> string" where
  "dirname p =
     (let head = rev (dropWhile (\<lambda>c. c \<noteq> slash) (rev p))
      in if list_all (\<lambda>c. c = slash) head then head else rstrip_slashes head)"

definition dir_exists :: "fs \<Rightarrow> string \<Rightarrow> bool" where
  "dir_exists fs d = (d = [] \<or> d = ''.'' \<or> list_all (\<lambda>c. c = slash) d \<or> d \<in> dirs fs)"

text \<open>\<^verbatim>\<open>open(fname, 'wt')\<close> creates the file or empties it. It raises FileNotFoundError
  for the empty path and for a path in a directory that does not exist,
  NotADirectoryError when the directory part names a file, and IsADirectoryError when the
  path names a directory or ends in a slash.\<close>

definition open_wt :: "string \<Rightarrow> fs \<Rightarrow> error + fs" where
  "open_wt fname fs =
     (let target = rstrip_slashes fname
      in if fname = [] then Inl FileNotFoundError
         else if \<not> dir_exists fs (dirname target) then
           (if files fs (dirname target) \<noteq> None then Inl NotADirectoryError
            else Inl FileNotFoundError)
         else if target \<noteq> fname \<or> dir_exists fs target then Inl IsADirectoryError
         else Inr (fs\<lparr>files := (files fs)(fname \<mapsto> [])\<rparr>))"

text \<open>\<^verbatim>\<open>f.write(text)\<close> appends to the file.\<close>

definition file_write :: "string \<Rightarrow> string \<Rightarrow> fs \<Rightarrow> fs" where
  "file_write fname text fs =
     fs\<lparr>files := (files fs)
       (fname \<mapsto> (case files fs fname of None \<Rightarrow> [] | Some old \<Rightarrow> old) @ text)\<rparr>"

fun write_jsonl_loop :: "string \<Rightarrow> json list \<Rightarrow> fs \<Rightarrow> fs" where
  "write_jsonl_loop fname [] fs = fs"
| "write_jsonl_loop fname (x # xs) fs =
     write_jsonl_loop fname xs (file_write fname (json_dumps x @ [newline]) fs)"

definition write_jsonl :: "string \<Rightarrow> json list \<Rightarrow> fs \<Rightarrow> error + fs" where
  "write_jsonl fname json_objs fs =
     (case open_wt fname fs of
        Inl e \<Rightarrow> Inl e
      | Inr opened \<Rightarrow> Inr (write_jsonl_loop fname json_objs opened))"

text \<open>The lines of a text, as a reader of the JSON-lines file splits it: each line ends at
  a newline character; a last line without one is kept when it is not empty.\<close>

fun text_lines :: "string \<Rightarrow> string \<Rightarrow> string list" where
  "text_lines cur [] = (if cur = [] then [] else [cur])"
| "text_lines cur (c # cs) =
     (if c = newline then cur # text_lines [] cs else text_lines (cur @ [c]) cs)"

subsection \<open>\<^verbatim>\<open>convert_to_jsonl\<close>\<close>

text \<open>\<^verbatim>\<open>json.load(open(data_path, 'rt'))\<close>: the path must name a file, and the text of
  the file goes through the library's parser \<open>loads\<close>, a parameter of the model.\<close>

definition json_load :: "(string \<Rightarrow> error + json) \<Rightarrow> fs \<Rightarrow> string \<Rightarrow> error + json" where
  "json_load loads fs path =
     (case files fs path of
        None \<Rightarrow>
          (if path \<noteq> [] \<and> dir_exists fs (rstrip_slashes path) then Inl IsADirectoryError
           else Inl FileNotFoundError)
      | Some text \<Rightarrow> loads text)"

text \<open>\<^verbatim>\<open>data.keys()\<close>: only a dictionary has the method.\<close>

fun dict_keys :: "json \<Rightarrow> error + string list" where
  "dict_keys (JObj kvs) = Inr (map fst kvs)"
| "dict_keys v = Inl AttributeError"

text \<open>The loop \<^verbatim>\<open>for k in data.keys()\<close>, which appends one object to \<^verbatim>\<open>json_objs\<close> per key
  and stops at the first exception.\<close>

fun convert_loop :: "json \<Rightarrow> string list \<Rightarrow> json list \<Rightarrow> error + json list" where
  "convert_loop data [] json_objs = Inr json_objs"
| "convert_loop data (k # ks) json_objs =
     (case getitem_str data k of
        Inl e \<Rightarrow> Inl e
      | Inr obj \<Rightarrow>
          (case form_question obj of
             Inl e \<Rightarrow> Inl e
           | Inr prompt \<Rightarrow>
               (case getitem_str obj ''reasoning_required_pred'' of
                  Inl e \<Rightarrow> Inl e
                | Inr completion \<Rightarrow>
                    convert_loop data ks
                      (json_objs @ [JObj [(''input'', JStr prompt), (''output'', completion)]]))))"

text \<open>The function returns its result (the list of objects, or the exception raised) and
  the file system it leaves behind.\<close>

definition convert_to_jsonl ::
  "(string \<Rightarrow> error + json) \<Rightarrow> string \<Rightarrow> string \<Rightarrow> fs \<Rightarrow> (error + json list) \<times> fs" where
  "convert_to_jsonl loads data_path output_path fs =
     (case json_load loads fs data_path of
        Inl e \<Rightarrow> (Inl e, fs)
      | Inr data \<Rightarrow>
          (case dict_keys data of
             Inl e \<Rightarrow> (Inl e, fs)
           | Inr ks \<Rightarrow>
               (case convert_loop data ks [] of
                  Inl e \<Rightarrow> (Inl e, fs)
                | Inr json_objs \<Rightarrow>
                    (case write_jsonl output_path json_objs fs of
                       Inl e \<Rightarrow> (Inl e, fs)
                     | Inr written \<Rightarrow> (Inr json_objs, written)))))"

text \<open>A record lacks a key when the lookup raises KeyError for it.\<close>

definition lacks :: "json \<Rightarrow> string \<Rightarrow> bool" where
  "lacks obj key = (getitem_str obj key = Inl (KeyError (JStr key)))"

text \<open>What one round of the loop of \<^verbatim>\<open>convert_to_jsonl\<close> raises on a record, if anything:
  the exception of \<^verbatim>\<open>form_question\<close>, or else that of the lookup of
  \<^verbatim>\<open>reasoning_required_pred\<close>.\<close>

definition record_error :: "json \<Rightarrow> error option" where
  "record_error obj =
     (case form_question obj of
        Inl e \<Rightarrow> Some e
      | Inr prompt \<Rightarrow>
          (case getitem_str obj ''reasoning_required_pred'' of
             Inl e \<Rightarrow> Some e
           | Inr completion \<Rightarrow> None))"

text \<open>The exception that comes out of the loop of \<^verbatim>\<open>convert_to_jsonl\<close>, if any: that of
  the first key, in key order, whose round raises one.\<close>

fun first_error :: "json \<Rightarrow> string list \<Rightarrow> error option" where
  "first_error data [] = None"
| "first_error data (k # ks) =
     (case getitem_str data k of
        Inl e \<Rightarrow> Some e
      | Inr obj \<Rightarrow>
          (case record_error obj of
             Some e \<Rightarrow> Some e
           | None \<Rightarrow> first_error data ks))"

text \<open>A record has a key when the lookup returns a value, and has the four fields when it
  has the three keys that \<^verbatim>\<open>form_question\<close> names and \<^verbatim>\<open>reasoning_required_pred\<close>.\<close>

definition has_key :: "json \<Rightarrow> string \<Rightarrow> bool" where
  "has_key obj key = (case getitem_str obj key of Inl e \<Rightarrow> False | Inr v \<Rightarrow> True)"

definition has_fields :: "json \<Rightarrow> bool" where
  "has_fields obj =
     (has_key obj ''QUESTION'' \<and> has_key obj ''LABELS'' \<and> has_key obj ''CONTEXTS'' \<and>
      has_key obj ''reasoning_required_pred'')"

section \<open>The Mixtral notebook: prompts, tokenization and training configuration\<close>

subsection \<open>\<^verbatim>\<open>formatting_func\<close> and \<^verbatim>\<open>generate_and_tokenize_prompt2\<close>\<close>

text \<open>A row of the dataset is a dictionary from column names to values.\<close>

definition formatting_func :: "json \<Rightarrow> error + string" where
  "formatting_func example =
     (case getitem_str example ''note'' of
        Inl e \<Rightarrow> Inl e
      | Inr note \<Rightarrow>
          (let text = ''### The following is a note by Eevee the Dog: '' @ py_str note
           in Inr text))"

text \<open>The tokenizer belongs to the \<^verbatim>\<open>transformers\<close> library and is a parameter of the model:
  it takes the text and the arguments \<^verbatim>\<open>truncation\<close>, \<^verbatim>\<open>max_length\<close> and \<^verbatim>\<open>padding\<close>, and
  returns a dictionary of integer sequences (or raises).\<close>

type_synonym batch_encoding = "string \<rightharpoonup> int list"

type_synonym tokenizer = "string \<Rightarrow> bool \<Rightarrow> nat \<Rightarrow> string \<Rightarrow> error + batch_encoding"

definition max_length :: nat where
  "max_length = 512"

text \<open>\<^verbatim>\<open>result["input_ids"].copy()\<close> is a new list with the same elements; in the model a
  sequence is its value, so the copy is the sequence itself.\<close>

definition generate_and_tokenize_prompt2 :: "tokenizer \<Rightarrow> json \<Rightarrow> error + batch_encoding" where
  "generate_and_tokenize_prompt2 tokenizer prompt =
     (case formatting_func prompt of
        Inl e \<Rightarrow> Inl e
      | Inr text \<Rightarrow>
          (case tokenizer text True max_length ''max_length'' of
             Inl e \<Rightarrow> Inl e
           | Inr result \<Rightarrow>
               (case result ''input_ids'' of
                  None \<Rightarrow> Inl (KeyError (JStr ''input_ids''))
                | Some input_ids \<Rightarrow> Inr (result(''labels'' \<mapsto> input_ids)))))"

subsection \<open>The LoRA and trainer configuration\<close>

text \<open>The keyword arguments of \<^verbatim>\<open>LoraConfig\<close> and \<^verbatim>\<open>TrainingArguments\<close> as the notebook
  writes them. A float literal is carried as the \<^verbatim>\<open>repr\<close> of the float it denotes:
  \<^verbatim>\<open>0.05\<close> is \<^verbatim>\<open>'0.05'\<close> and \<^verbatim>\<open>2.5e-5\<close> is \<^verbatim>\<open>'2.5e-05'\<close>.\<close>

record LoraConfig =
  r :: int
  lora_alpha :: int
  target_modules :: "string list"
  bias :: string
  lora_dropout :: pyfloat
  task_type :: string

record TrainingArguments =
  output_dir :: string
  warmup_steps :: int
  per_device_train_batch_size :: int
  gradient_accumulation_steps :: int
  gradient_checkpointing :: bool
  max_steps :: int
  learning_rate :: pyfloat
  fp16 :: bool
  optim :: string
  logging_steps :: int
  logging_dir :: string
  save_strategy :: string
  save_steps :: int
  evaluation_strategy :: string
  eval_steps :: int
  do_eval :: bool
  report_to :: string
  run_name :: string

definition config :: LoraConfig where
  "config =
     \<lparr>r = 32,
      lora_alpha = 64,
      target_modules =
        [''q_proj'', ''k_proj'', ''v_proj'', ''o_proj'', ''w1'', ''w2'', ''w3'', ''lm_head''],
      bias = ''none'',
      lora_dropout = ''0.05'',
      task_type = ''CAUSAL_LM''\<rparr>"

text \<open>\<^verbatim>\<open>model = get_peft_model(model, config)\<close>; the library function is a parameter.\<close>

definition lora_cell :: "('model \<Rightarrow> LoraConfig \<Rightarrow> 'model) \<Rightarrow> 'model \<Rightarrow> 'model" where
  "lora_cell get_peft_model model = get_peft_model model config"

text \<open>The arguments of the trainer; \<open>now\<close> is the text that
  \<^verbatim>\<open>datetime.now().strftime('%Y-%m-%d-%H-%M')\<close> gives when the cell runs.\<close>

definition training_arguments :: "string \<Rightarrow> TrainingArguments" where
  "training_arguments now =
     (let project = ''journal-finetune'';
          base_model_name = ''mixtral'';
          run_name_var = base_model_name @ ''-'' @ project;
          output_dir_var = ''./'' @ run_name_var
      in \<lparr>output_dir = output_dir_var,
          warmup_steps = 1,
          per_device_train_batch_size = 2,
          gradient_accumulation_steps = 1,
          gradient_checkpointing = True,
          max_steps = 300,
          learning_rate = ''2.5e-05'',
          fp16 = True,
          optim = ''paged_adamw_8bit'',
          logging_steps = 25,
          logging_dir = ''./logs'',
          save_strategy = ''steps'',
          save_steps = 25,
          evaluation_strategy = ''steps'',
          eval_steps = 25,
          do_eval = True,
          report_to = ''wandb'',
          run_name = run_name_var @ ''-'' @ now\<rparr>)"

text \<open>\<^verbatim>\<open>trainer = transformers.Trainer(model=..., train_dataset=..., eval_dataset=...,
  args=transformers.TrainingArguments(...), data_collator=...)\<close>; the constructor of the
  library is a parameter, and so are the model, the datasets and the collator.\<close>

definition trainer_cell ::
  "('model \<Rightarrow> 'dataset \<Rightarrow> 'dataset \<Rightarrow> TrainingArguments \<Rightarrow> 'collator \<Rightarrow> 'trainer) \<Rightarrow>
   'model \<Rightarrow> 'dataset \<Rightarrow> 'dataset \<Rightarrow> 'collator \<Rightarrow> string \<Rightarrow> 'trainer" where
  "trainer_cell Trainer model tokenized_train_dataset tokenized_val_dataset data_collator now =
     Trainer model tokenized_train_dataset tokenized_val_dataset
       (training_arguments now) data_collator"

section \<open>The BioMistral notebook: one generation\<close>

text \<open>The last cell of the notebook. The tokenizer call, the move to the GPU,
  \<^verbatim>\<open>model.generate\<close> and \<^verbatim>\<open>decode\<close> belong to the libraries and are parameters. The cell
  returns normally or with an exception, and leaves the standard output extended by what
  \<^verbatim>\<open>print\<close> wrote: the text and a newline.\<close>

definition run_the_model ::
  "(string \<Rightarrow> string \<Rightarrow> 'input) \<Rightarrow> ('input \<Rightarrow> string \<Rightarrow> 'input) \<Rightarrow>
   ('input \<Rightarrow> nat \<Rightarrow> pyfloat \<Rightarrow> error + int list list) \<Rightarrow> (int list \<Rightarrow> bool \<Rightarrow> string) \<Rightarrow>
   string \<Rightarrow> (error + unit) \<times> string" where
  "run_the_model eval_tokenizer to generate decode stdout =
     (let eval_prompt = ''The best way to '';
          model_input = to (eval_tokenizer eval_prompt ''pt'') ''cuda''
      in case generate model_input 100 ''1.15'' of
           Inl e \<Rightarrow> (Inl e, stdout)
         | Inr sequences \<Rightarrow>
             (case sequences of
                [] \<Rightarrow> (Inl IndexError, stdout)
              | first # others \<Rightarrow> (Inr (), stdout @ decode first True @ [newline])))"

section \<open>Sample inputs\<close>

text \<open>Two PubMedQA records whose label lists have the same length and different entries;
  the first has one context more than labels.\<close>

definition sample_record :: json where
  "sample_record =
     JObj [(''QUESTION'', JStr ''Is rest needed?''),
           (''CONTEXTS'', JList [JStr ''Aim.'', JStr ''Outcome.'', JStr ''Extra.'']),
           (''LABELS'', JList [JStr ''BACKGROUND'', JStr ''RESULTS'']),
           (''reasoning_required_pred'', JStr ''yes'')]"

definition relabelled_record :: json where
  "relabelled_record =
     JObj [(''QUESTION'', JStr ''Is rest needed?''),
           (''CONTEXTS'', JList [JStr ''Aim.'', JStr ''Outcome.'', JStr ''Extra.'']),
           (''LABELS'', JList [JStr ''METHODS'', JStr ''CONCLUSIONS'']),
           (''reasoning_required_pred'', JStr ''no'')]"

text \<open>A record without contexts and with no label, one with a label more than contexts,
  and one without contexts and with a label.\<close>

definition bare_record :: json where
  "bare_record =
     JObj [(''QUESTION'', JStr ''Why?''),
           (''LABELS'', JList []),
           (''reasoning_required_pred'', JStr ''maybe'')]"

definition short_record :: json where
  "short_record =
     JObj [(''QUESTION'', JStr ''Why?''),
           (''CONTEXTS'', JList [JStr ''Aim.'']),
           (''LABELS'', JList [JStr ''BACKGROUND'', JStr ''RESULTS'']),
           (''reasoning_required_pred'', JStr ''maybe'')]"

definition contextless_record :: json where
  "contextless_record =
     JObj [(''QUESTION'', JStr ''Why?''),
           (''LABELS'', JList [JStr ''BACKGROUND'']),
           (''reasoning_required_pred'', JStr ''maybe'')]"

definition sample_data :: json where
  "sample_data = JObj [(''11'', sample_record), (''12'', relabelled_record)]"

definition bare_data :: json where
  "bare_data = JObj [(''21'', bare_record)]"

definition broken_data :: json where
  "broken_data = JObj [(''31'', sample_record), (''32'', short_record)]"

definition contextless_data :: json where
  "contextless_data = JObj [(''41'', sample_record), (''42'', contextless_record)]"

text \<open>A parser that knows one document: it reads the serialisation of \<open>doc\<close> back and
  rejects every other text. The file system \<open>one_file\<close> holds that serialisation under
  \<^verbatim>\<open>data.json\<close> and an older output file, both in the current directory, and no
  other directory.\<close>

definition loads_only :: "json \<Rightarrow> string \<Rightarrow> error + json" where
  "loads_only doc text = (if text = json_dumps doc then Inr doc else Inl JSONDecodeError)"

definition one_file :: "json \<Rightarrow> fs" where
  "one_file doc =
     \<lparr>files = [''data.json'' \<mapsto> json_dumps doc, ''out.jsonl'' \<mapsto> ''old''], dirs = {}\<rparr>"

text \<open>A mapping whose first record has all four keys and a number for labels, and whose
  second record has no question.\<close>

definition unlabelled_record :: json where
  "unlabelled_record =
     JObj [(''QUESTION'', JStr ''Why?''),
           (''CONTEXTS'', JList [JStr ''Aim.'']),
           (''LABELS'', JInt 3),
           (''reasoning_required_pred'', JStr ''maybe'')]"

definition questionless_record :: json where
  "questionless_record =
     JObj [(''CONTEXTS'', JList [JStr ''Aim.'']),
           (''LABELS'', JList [JStr ''BACKGROUND'']),
           (''reasoning_required_pred'', JStr ''maybe'')]"

definition mixed_data :: json where
  "mixed_data = JObj [(''51'', unlabelled_record), (''52'', questionless_record)]"

text \<open>Two rows with the same note, and stand-ins for the library: a tokenizer that gives each character
  its code point, a generator that repeats its input once, a decoder that reads code points
  back.\<close>

definition sample_note :: json where
  "sample_note = JObj [(''note'', JStr ''Woof.''), (''date'', JStr ''today'')]"

definition retitled_note :: json where
  "retitled_note = JObj [(''title'', JStr ''Monday''), (''note'', JStr ''Woof.'')]"

definition codes_tokenizer :: tokenizer where
  "codes_tokenizer text truncation max_len padding =
     Inr [''input_ids'' \<mapsto> map of_char (take max_len text),
          ''attention_mask'' \<mapsto> map (\<lambda>c. 1) (take max_len text)]"

definition codes_encode :: "string \<Rightarrow> string \<Rightarrow> int list" where
  "codes_encode text return_tensors = map of_char text"

definition same_device :: "int list \<Rightarrow> string \<Rightarrow> int list" where
  "same_device input device = input"

definition echo_generate :: "int list \<Rightarrow> nat \<Rightarrow> pyfloat \<Rightarrow> error + int list list" where
  "echo_generate input max_new_tokens repetition_penalty = Inr [input @ take max_new_tokens input]"

definition codes_decode :: "int list \<Rightarrow> bool \<Rightarrow> string" where
  "codes_decode ids skip_special_tokens = map (\<lambda>i. char_of (nat i)) ids"

text \<open>The prompt of the two sample records.\<close>

abbreviation sample_prompt :: string where
  "sample_prompt \<equiv> ''QUESTION:Is rest needed?'' @ [newline] @ ''CONTEXT: Aim.'' @ [newline] @
          ''Outcome.'' @ [newline] @
          ''TARGET: the answer to the question given the context is (yes|no|maybe): ''"

section \<open>Properties of \<^verbatim>\<open>form_question\<close>\<close>

text \<open>Indexing a sequence with an index in range gives the item, out of range it raises
  IndexError; the loop over a sequence of contexts appends the first contexts, one per label.\<close>

lemma getitem_int_seq:
  "seq_items cs = Some xs \<Longrightarrow>
   getitem_int cs i = (if i < length xs then Inr (xs ! i) else Inl IndexError)"
  by (cases cs) auto

lemma form_question_loop_seq:
  assumes "getitem_str obj ''CONTEXTS'' = Inr cs" and "seq_items cs = Some xs"
    and "i \<le> length xs"
  shows "form_question_loop obj i items st =
     (if i + length items \<le> length xs
      then Inr (st @ concat (map (\<lambda>c. py_str c @ [newline]) (take (length items) (drop i xs))))
      else Inl IndexError)"
  using assms
proof (induction items arbitrary: i st)
  case Nil
  then show ?case by simp
next
  case (Cons label rest)
  show ?case
  proof (cases "i < length xs")
    case True
    then have d: "drop i xs = xs ! i # drop (Suc i) xs"
      by (simp add: Cons_nth_drop_Suc)
    show ?thesis
      using True Cons.prems Cons.IH [of "Suc i"]
      by (simp add: getitem_int_seq d)
  next
    case False
    then show ?thesis
      using Cons.prems by (simp add: getitem_int_seq)
  qed
qed

lemma form_question_loop_strs:
  assumes "getitem_str obj ''CONTEXTS'' = Inr contexts"
    and "\<And>j. i \<le> j \<Longrightarrow> j < i + length items \<Longrightarrow> getitem_int contexts j = Inr (JStr (ctx j))"
  shows "form_question_loop obj i items st =
     Inr (st @ concat (map (\<lambda>j. ctx j @ [newline]) [i..<i + length items]))"
  using assms
proof (induction items arbitrary: i st)
  case Nil
  then show ?case by simp
next
  case (Cons label rest)
  have here: "getitem_int contexts i = Inr (JStr (ctx i))"
    using Cons.prems(2) [of i] by simp
  have later: "form_question_loop obj (Suc i) rest (st @ ctx i @ [newline]) =
      Inr ((st @ ctx i @ [newline]) @
           concat (map (\<lambda>j. ctx j @ [newline]) [Suc i..<Suc i + length rest]))"
    using Cons.prems by (intro Cons.IH) auto
  have split: "[i..<i + length (label # rest)] = i # [Suc i..<Suc i + length rest]"
    using upt_conv_Cons [of i "i + length (label # rest)"] by simp
  show ?case
    using Cons.prems(1) here later by (simp only: split) simp
qed

text \<open>The loop never reads the labels: only their number matters.\<close>

lemma form_question_loop_labels_dead:
  assumes "length items = length items'"
    and "getitem_str obj ''CONTEXTS'' = getitem_str obj' ''CONTEXTS''"
  shows "form_question_loop obj i items st = form_question_loop obj' i items' st"
  using assms
proof (induction items items' arbitrary: i st rule: list_induct2)
  case Nil
  then show ?case by simp
next
  case (Cons x xs y ys)
  then show ?case
    by (simp split: sum.splits)
qed

lemma form_question_loop_needs_contexts:
  "form_question_loop obj i (label # rest) st = Inr st' \<Longrightarrow>
   \<exists>contexts. getitem_str obj ''CONTEXTS'' = Inr contexts"
  by (simp split: sum.splits)

lemma form_question_Inr_fields:
  assumes "form_question obj = Inr prompt"
  shows "\<exists>question labels items.
     getitem_str obj ''QUESTION'' = Inr question \<and>
     getitem_str obj ''LABELS'' = Inr labels \<and>
     py_iter labels = Inr items \<and>
     (items \<noteq> [] \<longrightarrow> (\<exists>contexts. getitem_str obj ''CONTEXTS'' = Inr contexts))"
proof -
  from assms obtain question labels items st where
    f: "getitem_str obj ''QUESTION'' = Inr question" "getitem_str obj ''LABELS'' = Inr labels"
       "py_iter labels = Inr items"
       "form_question_loop obj 0 items (''QUESTION:'' @ py_str question @ [newline] @ ''CONTEXT: '') = Inr st"
    by (auto simp: form_question_def split: sum.splits)
  have "\<exists>contexts. getitem_str obj ''CONTEXTS'' = Inr contexts" if "items \<noteq> []"
  proof -
    from that obtain label rest where "items = label # rest" by (cases items) auto
    with f(4) show ?thesis by (blast dest: form_question_loop_needs_contexts)
  qed
  with f(1-3) show ?thesis by blast
qed

text \<open>The prompts of the sample records.\<close>

lemma form_question_sample_record:
  "form_question sample_record =
     Inr (''QUESTION:Is rest needed?'' @ [newline] @ ''CONTEXT: Aim.'' @ [newline] @
          ''Outcome.'' @ [newline] @
          ''TARGET: the answer to the question given the context is (yes|no|maybe): '')"
  by (simp add: form_question_def sample_record_def)

lemma form_question_relabelled_record:
  "form_question relabelled_record =
     Inr (''QUESTION:Is rest needed?'' @ [newline] @ ''CONTEXT: Aim.'' @ [newline] @
          ''Outcome.'' @ [newline] @
          ''TARGET: the answer to the question given the context is (yes|no|maybe): '')"
  by (simp add: form_question_def relabelled_record_def)

lemma form_question_bare_record:
  "form_question bare_record =
     Inr (''QUESTION:Why?'' @ [newline] @ ''CONTEXT: '' @
          ''TARGET: the answer to the question given the context is (yes|no|maybe): '')"
  by (simp add: form_question_def bare_record_def)

lemma form_question_short_record: "form_question short_record = Inl IndexError"
  by (simp add: form_question_def short_record_def)

lemma form_question_contextless_record:
  "form_question contextless_record = Inl (KeyError (JStr ''CONTEXTS''))"
  by (simp add: form_question_def contextless_record_def)

lemma rrp_sample:
  "getitem_str sample_record ''reasoning_required_pred'' = Inr (JStr ''yes'')"
  "getitem_str relabelled_record ''reasoning_required_pred'' = Inr (JStr ''no'')"
  "getitem_str bare_record ''reasoning_required_pred'' = Inr (JStr ''maybe'')"
  by (simp_all add: sample_record_def relabelled_record_def bare_record_def)

text \<open>Claim C1. For a record whose \<^verbatim>\<open>QUESTION\<close> is a string, whose \<^verbatim>\<open>LABELS\<close> can be
  enumerated and whose \<^verbatim>\<open>CONTEXTS\<close> holds a string at every position below the number of
  labels (so there are at least as many contexts as labels), \<^verbatim>\<open>form_question\<close> returns
  exactly the text \<^verbatim>\<open>QUESTION:\<close>, the question, a newline, \<^verbatim>\<open>CONTEXT: \<close>, then for
  \<open>i\<close> from 0 to the number of labels minus one the \<open>i\<close>-th context followed by a
  newline, and last the fixed target line.\<close>

theorem form_question_template:
  assumes "getitem_str obj ''QUESTION'' = Inr (JStr question)"
    and "getitem_str obj ''LABELS'' = Inr labels"
    and "py_iter labels = Inr items"
    and "getitem_str obj ''CONTEXTS'' = Inr contexts"
    and "\<forall>i < length items. getitem_int contexts i = Inr (JStr (ctx i))"
  shows "form_question obj =
     Inr (''QUESTION:'' @ question @ [newline] @ ''CONTEXT: '' @
          concat (map (\<lambda>i. ctx i @ [newline]) [0..<length items]) @
          ''TARGET: the answer to the question given the context is (yes|no|maybe): '')"
proof -
  have "form_question_loop obj 0 items (''QUESTION:'' @ question @ [newline] @ ''CONTEXT: '') =
      Inr ((''QUESTION:'' @ question @ [newline] @ ''CONTEXT: '') @
           concat (map (\<lambda>j. ctx j @ [newline]) [0..<0 + length items]))"
    using assms(4,5) by (intro form_question_loop_strs) auto
  then show ?thesis
    using assms(1-3) by (simp add: form_question_def)
qed

text \<open>Claim C1, witness: the sample record, with two labels and three contexts.\<close>

theorem form_question_template_witness:
  "form_question sample_record =
     Inr (''QUESTION:Is rest needed?'' @ [newline] @ ''CONTEXT: Aim.'' @ [newline] @
          ''Outcome.'' @ [newline] @
          ''TARGET: the answer to the question given the context is (yes|no|maybe): '')"
proof -
  have q: "getitem_str sample_record ''QUESTION'' = Inr (JStr ''Is rest needed?'')"
    by (simp add: sample_record_def)
  have l: "getitem_str sample_record ''LABELS'' = Inr (JList [JStr ''BACKGROUND'', JStr ''RESULTS''])"
    by (simp add: sample_record_def)
  have i: "py_iter (JList [JStr ''BACKGROUND'', JStr ''RESULTS'']) = Inr [JStr ''BACKGROUND'', JStr ''RESULTS'']"
    by simp
  have c: "getitem_str sample_record ''CONTEXTS'' = Inr (JList [JStr ''Aim.'', JStr ''Outcome.'', JStr ''Extra.''])"
    by (simp add: sample_record_def)
  have s: "\<forall>i < length [JStr ''BACKGROUND'', JStr ''RESULTS''].
      getitem_int (JList [JStr ''Aim.'', JStr ''Outcome.'', JStr ''Extra.'']) i = Inr (JStr ([''Aim.'', ''Outcome.''] ! i))"
    by (simp add: less_Suc_eq)
  have u: "[0..<length [JStr ''BACKGROUND'', JStr ''RESULTS'']] = [0, 1]"
    by (simp add: upt_rec)
  show ?thesis
    using form_question_template [OF q l i c s] by (simp add: u)
qed

text \<open>Claim C8. For a record with a \<^verbatim>\<open>QUESTION\<close>, labels that can be enumerated and
  contexts that form a sequence, \<^verbatim>\<open>form_question\<close> returns a prompt exactly when there
  are at least as many contexts as labels; with fewer contexts the lookup at the first index
  out of range raises IndexError; and when it returns, the prompt holds the first contexts,
  as many as there are labels, so the contexts beyond that number do not appear.\<close>

theorem form_question_total_iff:
  assumes "getitem_str obj ''QUESTION'' = Inr question"
    and "getitem_str obj ''LABELS'' = Inr labels"
    and "py_iter labels = Inr items"
    and "getitem_str obj ''CONTEXTS'' = Inr contexts"
    and "seq_items contexts = Some xs"
  shows "((\<exists>st. form_question obj = Inr st) \<longleftrightarrow> length items \<le> length xs) \<and>
     (length xs < length items \<longrightarrow> form_question obj = Inl IndexError) \<and>
     (length items \<le> length xs \<longrightarrow>
        form_question obj =
          Inr (''QUESTION:'' @ py_str question @ [newline] @ ''CONTEXT: '' @
               concat (map (\<lambda>c. py_str c @ [newline]) (take (length items) xs)) @
               ''TARGET: the answer to the question given the context is (yes|no|maybe): ''))"
proof -
  have loop: "form_question_loop obj 0 items st =
     (if length items \<le> length xs
      then Inr (st @ concat (map (\<lambda>c. py_str c @ [newline]) (take (length items) xs)))
      else Inl IndexError)" for st
    using form_question_loop_seq [OF assms(4,5), of 0 items st] by simp
  show ?thesis
    using assms(1-3) by (simp add: form_question_def loop)
qed

text \<open>Claim C8, witness: the sample record, whose third context is left out, and a record with
  two labels and one context, which fails.\<close>

theorem form_question_total_iff_witness:
  "form_question sample_record =
     Inr (''QUESTION:Is rest needed?'' @ [newline] @ ''CONTEXT: Aim.'' @ [newline] @
          ''Outcome.'' @ [newline] @
          ''TARGET: the answer to the question given the context is (yes|no|maybe): '') \<and>
   form_question short_record = Inl IndexError"
proof -
  have a: "getitem_str sample_record ''QUESTION'' = Inr (JStr ''Is rest needed?'')"
    "getitem_str sample_record ''LABELS'' = Inr (JList [JStr ''BACKGROUND'', JStr ''RESULTS''])"
    "getitem_str sample_record ''CONTEXTS'' = Inr (JList [JStr ''Aim.'', JStr ''Outcome.'', JStr ''Extra.''])"
    by (simp_all add: sample_record_def)
  have b: "getitem_str short_record ''QUESTION'' = Inr (JStr ''Why?'')"
    "getitem_str short_record ''LABELS'' = Inr (JList [JStr ''BACKGROUND'', JStr ''RESULTS''])"
    "getitem_str short_record ''CONTEXTS'' = Inr (JList [JStr ''Aim.''])"
    by (simp_all add: short_record_def)
  have i: "py_iter (JList [JStr ''BACKGROUND'', JStr ''RESULTS'']) = Inr [JStr ''BACKGROUND'', JStr ''RESULTS'']"
    by simp
  have long: "seq_items (JList [JStr ''Aim.'', JStr ''Outcome.'', JStr ''Extra.'']) = Some [JStr ''Aim.'', JStr ''Outcome.'', JStr ''Extra.'']"
    and short: "seq_items (JList [JStr ''Aim.'']) = Some [JStr ''Aim.'']"
    by simp_all
  show ?thesis
    using form_question_total_iff [OF a(1) a(2) i a(3) long]
      form_question_total_iff [OF b(1) b(2) i b(3) short]
    by simp
qed

text \<open>Claim C9. Two records with the same \<^verbatim>\<open>QUESTION\<close> and the same \<^verbatim>\<open>CONTEXTS\<close> (as
  the lookups give them) and with equally many labels get the same result from
  \<^verbatim>\<open>form_question\<close>, whatever the labels are.\<close>

theorem form_question_ignores_label_values:
  assumes "getitem_str obj ''QUESTION'' = getitem_str obj' ''QUESTION''"
    and "getitem_str obj ''CONTEXTS'' = getitem_str obj' ''CONTEXTS''"
    and "getitem_str obj ''LABELS'' = Inr labels"
    and "getitem_str obj' ''LABELS'' = Inr labels'"
    and "py_iter labels = Inr items"
    and "py_iter labels' = Inr items'"
    and "length items = length items'"
  shows "form_question obj = form_question obj'"
  using assms form_question_loop_labels_dead [OF assms(7,2)]
  by (simp add: form_question_def split: sum.splits)

text \<open>Claim C9, witness: the two sample records, whose labels differ.\<close>

theorem form_question_ignores_label_values_witness:
  "form_question sample_record = form_question relabelled_record"
proof -
  have "getitem_str sample_record ''QUESTION'' = getitem_str relabelled_record ''QUESTION''"
    and "getitem_str sample_record ''CONTEXTS'' = getitem_str relabelled_record ''CONTEXTS''"
    and "getitem_str sample_record ''LABELS'' = Inr (JList [JStr ''BACKGROUND'', JStr ''RESULTS''])"
    and "getitem_str relabelled_record ''LABELS'' = Inr (JList [JStr ''METHODS'', JStr ''CONCLUSIONS''])"
    and "py_iter (JList [JStr ''BACKGROUND'', JStr ''RESULTS'']) = Inr [JStr ''BACKGROUND'', JStr ''RESULTS'']"
    and "py_iter (JList [JStr ''METHODS'', JStr ''CONCLUSIONS'']) = Inr [JStr ''METHODS'', JStr ''CONCLUSIONS'']"
    and "length [JStr ''BACKGROUND'', JStr ''RESULTS''] = length [JStr ''METHODS'', JStr ''CONCLUSIONS'']"
    by (simp_all add: sample_record_def relabelled_record_def)
  then show ?thesis
    by (rule form_question_ignores_label_values)
qed

section \<open>Properties of \<^verbatim>\<open>write_jsonl\<close> and \<^verbatim>\<open>convert_to_jsonl\<close>\<close>

subsection \<open>The serialisation has no newline\<close>

lemma show_nat_digits: "set (show_nat n) \<subseteq> set ''0123456789''"
proof (induction n rule: show_nat.induct)
  case (1 n)
  have digit: "''0123456789'' ! k \<in> set ''0123456789''" if "k < 10" for k
    using that nth_mem [of k "''0123456789''"] by simp
  show ?case
  proof (cases "n < 10")
    case True
    then show ?thesis
      using digit [of n] by (subst show_nat.simps) simp
  next
    case False
    then show ?thesis
      using "1.IH" digit [of "n mod 10"] by (subst show_nat.simps) auto
  qed
qed

lemma show_int_no_newline: "newline \<notin> set (show_int i)"
  using show_nat_digits [of "nat i"] show_nat_digits [of "nat (- i)"]
  by (auto simp: show_int_def)

lemma hexdigit_no_newline: "hexdigit n \<noteq> newline"
proof -
  have "hexdigit n \<in> set ''0123456789abcdef''"
    unfolding hexdigit_def by (rule nth_mem) simp
  then show ?thesis by auto
qed

lemma json_escape_char_no_newline: "newline \<notin> set (json_escape_char c)"
  by (auto simp: json_escape_char_def hex2_def hexdigit_no_newline hexdigit_no_newline [THEN not_sym])

lemma json_encode_str_no_newline: "newline \<notin> set (json_encode_str s)"
  by (auto simp: json_encode_str_def json_escape_char_no_newline)

lemma json_encode_float_no_newline:
  assumes "float_text t"
  shows "newline \<notin> set (json_encode_float t)"
proof (cases "t = ''nan'' \<or> t = ''inf'' \<or> t = ''-inf''")
  case True
  then show ?thesis by (auto simp: json_encode_float_def)
next
  case False
  with assms have "list_all (\<lambda>c. c \<in> set ''0123456789.e+-'') t"
    unfolding float_text_def by blast
  then have "\<forall>c \<in> set t. c \<in> set ''0123456789.e+-''"
    by (simp only: list_all_iff)
  moreover have "newline \<notin> set ''0123456789.e+-''" by simp
  ultimately have "newline \<notin> set t" by blast
  then show ?thesis using False by (simp add: json_encode_float_def)
qed

lemma join_avoids:
  "c \<notin> set sep \<Longrightarrow> (\<And>x. x \<in> set xs \<Longrightarrow> c \<notin> set x) \<Longrightarrow> c \<notin> set (join sep xs)"
  by (induction sep xs rule: join.induct) auto

lemma json_dumps_no_newline: "wf_json v \<Longrightarrow> newline \<notin> set (json_dumps v)"
proof (induction v rule: json_dumps.induct)
  case (6 xs)
  have "newline \<notin> set (join '', '' (map json_dumps xs))"
    using 6 by (intro join_avoids) (auto simp: list_all_iff)
  then show ?case by simp
next
  case (7 kvs)
  have "newline \<notin> set (join '', ''
      (map (\<lambda>kv. json_encode_str (fst kv) @ '': '' @ json_dumps (snd kv)) kvs))"
    using 7 by (intro join_avoids) (auto simp: list_all_iff json_encode_str_no_newline)
  then show ?case by simp
qed (simp_all add: show_int_no_newline json_encode_str_no_newline json_encode_float_no_newline)

subsection \<open>What \<^verbatim>\<open>write_jsonl\<close> leaves in the file\<close>

lemma write_jsonl_loop_content:
  "files fs fname = Some old \<Longrightarrow>
   write_jsonl_loop fname xs fs =
     fs\<lparr>files := (files fs)(fname \<mapsto> old @ concat (map (\<lambda>x. json_dumps x @ [newline]) xs))\<rparr>"
proof (induction xs arbitrary: fs old)
  case Nil
  then show ?case by (simp add: fun_upd_idem)
next
  case (Cons x xs)
  let ?t = "json_dumps x @ [newline]"
  let ?fs = "fs\<lparr>files := (files fs)(fname \<mapsto> old @ ?t)\<rparr>"
  have step: "file_write fname ?t fs = ?fs"
    using Cons.prems by (simp add: file_write_def)
  have "write_jsonl_loop fname (x # xs) fs = write_jsonl_loop fname xs ?fs"
    by (simp only: write_jsonl_loop.simps step)
  also have "\<dots> = ?fs\<lparr>files := (files ?fs)
      (fname \<mapsto> (old @ ?t) @ concat (map (\<lambda>x. json_dumps x @ [newline]) xs))\<rparr>"
    by (rule Cons.IH) simp
  also have "\<dots> = fs\<lparr>files := (files fs)
      (fname \<mapsto> old @ concat (map (\<lambda>x. json_dumps x @ [newline]) (x # xs)))\<rparr>"
    by simp
  finally show ?case .
qed

lemma open_wt_Inr:
  "open_wt fname fs = Inr opened \<Longrightarrow> opened = fs\<lparr>files := (files fs)(fname \<mapsto> [])\<rparr>"
  by (simp add: open_wt_def Let_def split: if_splits)

lemma write_jsonl_content:
  assumes "open_wt fname fs = Inr opened"
  shows "write_jsonl fname json_objs fs =
     Inr (fs\<lparr>files := (files fs)
       (fname \<mapsto> concat (map (\<lambda>x. json_dumps x @ [newline]) json_objs))\<rparr>)"
proof -
  have opened: "opened = fs\<lparr>files := (files fs)(fname \<mapsto> [])\<rparr>"
    using assms by (rule open_wt_Inr)
  have "write_jsonl_loop fname json_objs opened =
      opened\<lparr>files := (files opened)
        (fname \<mapsto> [] @ concat (map (\<lambda>x. json_dumps x @ [newline]) json_objs))\<rparr>"
    by (rule write_jsonl_loop_content) (simp add: opened)
  then show ?thesis
    using assms by (simp add: write_jsonl_def opened)
qed

lemma open_wt_one_file:
  "open_wt ''out.jsonl'' (one_file doc) =
     Inr ((one_file doc)\<lparr>files := (files (one_file doc))(''out.jsonl'' \<mapsto> [])\<rparr>)"
  by (simp add: open_wt_def dirname_def rstrip_slashes_def dir_exists_def one_file_def)

lemma open_wt_missing_directory:
  "open_wt ''nodir/out.jsonl'' (one_file doc) = Inl FileNotFoundError"
  by (simp add: open_wt_def dirname_def rstrip_slashes_def dir_exists_def one_file_def)

lemma text_lines_line:
  "newline \<notin> set l \<Longrightarrow> text_lines cur (l @ newline # rest) = (cur @ l) # text_lines [] rest"
  by (induction l arbitrary: cur) auto

lemma text_lines_concat:
  "\<forall>l \<in> set ls. newline \<notin> set l \<Longrightarrow>
   text_lines [] (concat (map (\<lambda>l. l @ [newline]) ls)) = ls"
proof (induction ls)
  case Nil
  then show ?case by simp
next
  case (Cons l ls)
  then show ?case
    using text_lines_line [of l "[]" "concat (map (\<lambda>l. l @ [newline]) ls)"] by simp
qed

subsection \<open>The loop over the records\<close>

lemma record_error_None:
  "record_error obj = None \<longleftrightarrow>
   (\<exists>prompt completion. form_question obj = Inr prompt \<and>
      getitem_str obj ''reasoning_required_pred'' = Inr completion)"
  by (auto simp: record_error_def split: sum.splits)

lemma record_error_Some:
  "record_error obj = Some e \<longleftrightarrow>
   (form_question obj = Inl e \<or>
    (\<exists>prompt. form_question obj = Inr prompt \<and>
       getitem_str obj ''reasoning_required_pred'' = Inl e))"
  by (auto simp: record_error_def split: sum.splits)

lemma getitem_str_JObj_key:
  "k \<in> set (map fst kvs) \<Longrightarrow> \<exists>obj. getitem_str (JObj kvs) k = Inr obj \<and> map_of kvs k = Some obj"
  by (cases "map_of kvs k") (auto simp: map_of_eq_None_iff)

lemma convert_loop_success:
  assumes "\<And>k. k \<in> set ks \<Longrightarrow> \<exists>obj. getitem_str data k = Inr obj \<and> record_error obj = None"
  shows "\<exists>objs. convert_loop data ks acc = Inr (acc @ objs) \<and>
     list_all2 (\<lambda>k x. \<exists>obj prompt completion.
         getitem_str data k = Inr obj \<and> form_question obj = Inr prompt \<and>
         getitem_str obj ''reasoning_required_pred'' = Inr completion \<and>
         x = JObj [(''input'', JStr prompt), (''output'', completion)]) ks objs"
  using assms
proof (induction ks arbitrary: acc)
  case Nil
  then show ?case by simp
next
  case (Cons k ks)
  from Cons.prems [of k] obtain obj prompt completion where
    k: "getitem_str data k = Inr obj" "form_question obj = Inr prompt"
       "getitem_str obj ''reasoning_required_pred'' = Inr completion"
    by (auto simp: record_error_None)
  let ?x = "JObj [(''input'', JStr prompt), (''output'', completion)]"
  from Cons.IH [of "acc @ [?x]"] Cons.prems obtain objs where
    rest: "convert_loop data ks (acc @ [?x]) = Inr ((acc @ [?x]) @ objs)"
      "list_all2 (\<lambda>k x. \<exists>obj prompt completion.
         getitem_str data k = Inr obj \<and> form_question obj = Inr prompt \<and>
         getitem_str obj ''reasoning_required_pred'' = Inr completion \<and>
         x = JObj [(''input'', JStr prompt), (''output'', completion)]) ks objs"
    by auto
  show ?case
  proof (intro exI [of _ "?x # objs"] conjI)
    show "convert_loop data (k # ks) acc = Inr (acc @ ?x # objs)"
      using k rest(1) by simp
  next
    show "list_all2 (\<lambda>k x. \<exists>obj prompt completion.
         getitem_str data k = Inr obj \<and> form_question obj = Inr prompt \<and>
         getitem_str obj ''reasoning_required_pred'' = Inr completion \<and>
         x = JObj [(''input'', JStr prompt), (''output'', completion)]) (k # ks) (?x # objs)"
      using k rest(2) by simp
  qed
qed

lemma convert_loop_error_origin:
  assumes "convert_loop data ks acc = Inl e"
  shows "\<exists>k \<in> set ks. getitem_str data k = Inl e \<or>
     (\<exists>obj. getitem_str data k = Inr obj \<and> record_error obj = Some e)"
  using assms
proof (induction ks arbitrary: acc)
  case Nil
  then show ?case by simp
next
  case (Cons k ks)
  show ?case
  proof (cases "getitem_str data k")
    case (Inl e')
    with Cons.prems show ?thesis by simp
  next
    case (Inr obj)
    show ?thesis
    proof (cases "record_error obj")
      case None
      then obtain prompt completion where
        ok: "form_question obj = Inr prompt"
            "getitem_str obj ''reasoning_required_pred'' = Inr completion"
        by (auto simp: record_error_None)
      with Inr Cons.prems have
        "convert_loop data ks (acc @ [JObj [(''input'', JStr prompt), (''output'', completion)]]) = Inl e"
        by simp
      from Cons.IH [OF this] show ?thesis by auto
    next
      case (Some e')
      with Inr Cons.prems have "e' = e"
        by (auto simp: record_error_def split: sum.splits)
      with Some Inr show ?thesis by auto
    qed
  qed
qed

lemma convert_loop_fails:
  assumes "k \<in> set ks" and "getitem_str data k = Inr obj" and "record_error obj = Some e"
  shows "\<exists>e'. convert_loop data ks acc = Inl e'"
  using assms(1)
proof (induction ks arbitrary: acc)
  case Nil
  then show ?case by simp
next
  case (Cons a ks)
  show ?case
  proof (cases "a = k")
    case True
    then show ?thesis
      using assms(2,3) by (auto simp: record_error_Some)
  next
    case False
    with Cons.prems have "k \<in> set ks" by simp
    from Cons.IH [OF this] show ?thesis
      by (simp split: sum.splits)
  qed
qed

lemma convert_loop_first_error:
  "convert_loop data ks acc = Inl e \<longleftrightarrow> first_error data ks = Some e"
proof (induction ks arbitrary: acc)
  case Nil
  then show ?case by simp
next
  case (Cons k ks)
  show ?case
  proof (cases "getitem_str data k")
    case (Inl e')
    then show ?thesis by auto
  next
    case (Inr obj)
    show ?thesis
    proof (cases "record_error obj")
      case None
      then obtain prompt completion where
        "form_question obj = Inr prompt"
        "getitem_str obj ''reasoning_required_pred'' = Inr completion"
        by (auto simp: record_error_None)
      with Inr None Cons.IH show ?thesis by simp
    next
      case (Some e')
      then have "convert_loop data (k # ks) acc = Inl e'"
        using Inr by (auto simp: record_error_Some)
      with Inr Some show ?thesis by auto
    qed
  qed
qed

lemma lacks_question_error:
  "lacks obj ''QUESTION'' \<Longrightarrow> record_error obj = Some (KeyError (JStr ''QUESTION''))"
  by (simp add: lacks_def record_error_def form_question_def)

lemma lacks_labels_error:
  "has_key obj ''QUESTION'' \<Longrightarrow> lacks obj ''LABELS'' \<Longrightarrow>
   record_error obj = Some (KeyError (JStr ''LABELS''))"
  by (auto simp: lacks_def has_key_def record_error_def form_question_def split: sum.splits)

lemma lacks_contexts_error:
  assumes "has_key obj ''QUESTION''"
    and "getitem_str obj ''LABELS'' = Inr labels"
    and "py_iter labels = Inr (label # rest)"
    and "lacks obj ''CONTEXTS''"
  shows "record_error obj = Some (KeyError (JStr ''CONTEXTS''))"
  using assms
  by (auto simp: lacks_def has_key_def record_error_def form_question_def split: sum.splits)

lemma lacks_pred_error:
  "form_question obj = Inr prompt \<Longrightarrow> lacks obj ''reasoning_required_pred'' \<Longrightarrow>
   record_error obj = Some (KeyError (JStr ''reasoning_required_pred''))"
  by (simp add: lacks_def record_error_def)

lemma missing_key_record_error:
  assumes "lacks obj ''QUESTION'' \<or> lacks obj ''LABELS'' \<or>
     lacks obj ''reasoning_required_pred'' \<or>
     (lacks obj ''CONTEXTS'' \<and>
      (\<exists>labels. getitem_str obj ''LABELS'' = Inr labels \<and> py_iter labels \<noteq> Inr []))"
  shows "\<exists>e. record_error obj = Some e"
proof (cases "record_error obj")
  case None
  then obtain prompt completion where
    ok: "form_question obj = Inr prompt"
        "getitem_str obj ''reasoning_required_pred'' = Inr completion"
    by (auto simp: record_error_None)
  from form_question_Inr_fields [OF ok(1)] ok(2) assms show ?thesis
    by (auto simp: lacks_def)
next
  case (Some e)
  then show ?thesis by simp
qed

lemma convert_to_jsonl_fails:
  assumes "json_load loads fs data_path = Inr (JObj kvs)"
    and "map_of kvs k = Some obj"
    and "record_error obj = Some e"
  shows "\<exists>e'. convert_to_jsonl loads data_path output_path fs = (Inl e', fs) \<and>
     (\<exists>k' obj'. map_of kvs k' = Some obj' \<and> record_error obj' = Some e')"
proof -
  have k: "k \<in> set (map fst kvs)"
    using map_of_SomeD [OF assms(2)] by force
  have get: "getitem_str (JObj kvs) k = Inr obj"
    using assms(2) by simp
  from convert_loop_fails [OF k get assms(3)] obtain e' where
    fail: "convert_loop (JObj kvs) (map fst kvs) [] = Inl e'" by blast
  from convert_loop_error_origin [OF fail] obtain k' where
    k': "k' \<in> set (map fst kvs)"
      "getitem_str (JObj kvs) k' = Inl e' \<or>
       (\<exists>obj'. getitem_str (JObj kvs) k' = Inr obj' \<and> record_error obj' = Some e')"
    by blast
  from getitem_str_JObj_key [OF k'(1)] k'(2) obtain obj' where
    "map_of kvs k' = Some obj'" "record_error obj' = Some e'"
    by auto
  with fail assms(1) show ?thesis
    by (auto simp: convert_to_jsonl_def)
qed

lemma first_error_append:
  "first_error data (ks1 @ ks2) =
     (case first_error data ks1 of Some e \<Rightarrow> Some e | None \<Rightarrow> first_error data ks2)"
  by (induction ks1) (auto split: sum.splits option.splits)

lemma convert_to_jsonl_first_error:
  assumes "json_load loads fs data_path = Inr (JObj kvs)"
    and "first_error (JObj kvs) (map fst kvs) = Some e"
  shows "convert_to_jsonl loads data_path output_path fs = (Inl e, fs)"
proof -
  have "convert_loop (JObj kvs) (map fst kvs) [] = Inl e"
    using assms(2) by (simp only: convert_loop_first_error)
  with assms(1) show ?thesis
    by (simp add: convert_to_jsonl_def)
qed

lemma json_load_one_file: "json_load (loads_only doc) (one_file doc) ''data.json'' = Inr doc"
  by (simp add: json_load_def loads_only_def one_file_def)

lemma convert_loop_sample_data:
  "convert_loop sample_data [''11'', ''12''] [] =
     Inr [JObj [(''input'', JStr sample_prompt), (''output'', JStr ''yes'')],
          JObj [(''input'', JStr sample_prompt), (''output'', JStr ''no'')]]"
  by (simp add: sample_data_def form_question_sample_record form_question_relabelled_record
      rrp_sample)

lemma convert_sample_data:
  "fst (convert_to_jsonl (loads_only sample_data) ''data.json'' ''out.jsonl'' (one_file sample_data)) =
     Inr [JObj [(''input'', JStr sample_prompt), (''output'', JStr ''yes'')],
          JObj [(''input'', JStr sample_prompt), (''output'', JStr ''no'')]]"
proof -
  have keys: "dict_keys sample_data = Inr [''11'', ''12'']"
    by (simp add: sample_data_def)
  show ?thesis
    by (simp add: convert_to_jsonl_def json_load_one_file keys convert_loop_sample_data
        write_jsonl_def open_wt_one_file del: convert_loop.simps)
qed

text \<open>Claim C2 as stated fails. Every record of the first mapping has the three fields that
  \<^verbatim>\<open>form_question\<close> reads and \<^verbatim>\<open>reasoning_required_pred\<close>, and the mapping is well formed,
  but its second record has two labels and one context: \<^verbatim>\<open>form_question\<close> raises
  IndexError, \<^verbatim>\<open>convert_to_jsonl\<close> returns nothing and the older output file keeps its
  text. And a mapping that converts is not written when the output path lies in a
  directory that does not exist: \<^verbatim>\<open>open\<close> raises FileNotFoundError.\<close>

theorem convert_to_jsonl_fields_counterexample:
  "dict_keys broken_data = Inr [''31'', ''32''] \<and>
   getitem_str broken_data ''31'' = Inr sample_record \<and>
   getitem_str broken_data ''32'' = Inr short_record \<and>
   has_fields sample_record \<and> has_fields short_record \<and> wf_json broken_data \<and>
   convert_to_jsonl (loads_only broken_data) ''data.json'' ''out.jsonl'' (one_file broken_data) =
     (Inl IndexError, one_file broken_data) \<and>
   files (one_file broken_data) ''out.jsonl'' = Some ''old'' \<and>
   convert_to_jsonl (loads_only sample_data) ''data.json'' ''nodir/out.jsonl''
     (one_file sample_data) =
     (Inl FileNotFoundError, one_file sample_data)"
proof (intro conjI)
  show keys: "dict_keys broken_data = Inr [''31'', ''32'']"
    by (simp add: broken_data_def)
  show first: "getitem_str broken_data ''31'' = Inr sample_record"
    by (simp add: broken_data_def)
  show second: "getitem_str broken_data ''32'' = Inr short_record"
    by (simp add: broken_data_def)
  show "has_fields sample_record"
    by (simp add: has_fields_def has_key_def sample_record_def)
  show "has_fields short_record"
    by (simp add: has_fields_def has_key_def short_record_def)
  show "wf_json broken_data"
    by (simp add: broken_data_def sample_record_def short_record_def)
  have "convert_loop broken_data [''31'', ''32''] [] = Inl IndexError"
    by (simp add: first second form_question_sample_record rrp_sample
        form_question_short_record)
  then show "convert_to_jsonl (loads_only broken_data) ''data.json'' ''out.jsonl''
      (one_file broken_data) = (Inl IndexError, one_file broken_data)"
    by (simp add: convert_to_jsonl_def json_load_one_file keys del: convert_loop.simps)
  show "files (one_file broken_data) ''out.jsonl'' = Some ''old''"
    by (simp add: one_file_def)
  have "dict_keys sample_data = Inr [''11'', ''12'']"
    by (simp add: sample_data_def)
  then show "convert_to_jsonl (loads_only sample_data) ''data.json'' ''nodir/out.jsonl''
      (one_file sample_data) = (Inl FileNotFoundError, one_file sample_data)"
    by (simp add: convert_to_jsonl_def json_load_one_file convert_loop_sample_data
        write_jsonl_def open_wt_missing_directory del: convert_loop.simps)
qed

text \<open>Claim C2, amended. When \<^verbatim>\<open>json.load\<close> returns a dictionary (well formed, as the loader
  builds it) on each of whose records \<^verbatim>\<open>form_question\<close> returns a prompt and the lookup of
  \<^verbatim>\<open>reasoning_required_pred\<close> a value, and \<open>output_path\<close> can be opened for writing,
  \<^verbatim>\<open>convert_to_jsonl\<close> returns one object per record, in key order, each with exactly the
  fields \<^verbatim>\<open>input\<close> (the prompt of the record) and \<^verbatim>\<open>output\<close> (its
  \<^verbatim>\<open>reasoning_required_pred\<close>); the file at \<open>output_path\<close> holds the serialisations of
  these objects, each followed by a newline, and splitting the file into lines gives back
  exactly these serialisations, one line per record.\<close>

theorem convert_to_jsonl_lines:
  assumes "json_load loads fs data_path = Inr (JObj kvs)"
    and "wf_json (JObj kvs)"
    and "\<forall>kv \<in> set kvs. \<exists>prompt completion. form_question (snd kv) = Inr prompt \<and>
           getitem_str (snd kv) ''reasoning_required_pred'' = Inr completion"
    and "open_wt output_path fs = Inr opened"
  shows "\<exists>json_objs content.
     convert_to_jsonl loads data_path output_path fs =
       (Inr json_objs, fs\<lparr>files := (files fs)(output_path \<mapsto> content)\<rparr>) \<and>
     list_all2 (\<lambda>kv x. \<exists>prompt completion.
         form_question (snd kv) = Inr prompt \<and>
         getitem_str (snd kv) ''reasoning_required_pred'' = Inr completion \<and>
         x = JObj [(''input'', JStr prompt), (''output'', completion)]) kvs json_objs \<and>
     content = concat (map (\<lambda>x. json_dumps x @ [newline]) json_objs) \<and>
     text_lines [] content = map json_dumps json_objs"
proof -
  let ?row = "\<lambda>obj x. \<exists>prompt completion.
         form_question obj = Inr prompt \<and>
         getitem_str obj ''reasoning_required_pred'' = Inr completion \<and>
         x = JObj [(''input'', JStr prompt), (''output'', completion)]"
  have dist: "distinct (map fst kvs)" and wf: "\<forall>kv \<in> set kvs. wf_json (snd kv)"
    using assms(2) by (auto simp: list_all_iff)
  have get: "getitem_str (JObj kvs) (fst kv) = Inr (snd kv)" if "kv \<in> set kvs" for kv
    using map_of_is_SomeI [OF dist, of "fst kv" "snd kv"] that by simp
  have "\<exists>obj. getitem_str (JObj kvs) k = Inr obj \<and> record_error obj = None"
    if "k \<in> set (map fst kvs)" for k
  proof -
    from that obtain kv where "kv \<in> set kvs" "k = fst kv" by auto
    with get [of kv] assms(3) show ?thesis
      by (auto simp: record_error_None)
  qed
  from convert_loop_success [of "map fst kvs" "JObj kvs" "[]", OF this] obtain json_objs where
    run: "convert_loop (JObj kvs) (map fst kvs) [] = Inr json_objs"
    and rows: "list_all2 (\<lambda>k x. \<exists>obj. getitem_str (JObj kvs) k = Inr obj \<and> ?row obj x)
                 (map fst kvs) json_objs"
    by auto
  have rows1: "list_all2 (\<lambda>kv x. \<exists>obj. getitem_str (JObj kvs) (fst kv) = Inr obj \<and> ?row obj x)
                 kvs json_objs"
    using rows by (simp only: list_all2_map1)
  have rows': "list_all2 (\<lambda>kv x. ?row (snd kv) x) kvs json_objs"
  proof (rule list.rel_mono_strong [OF rows1])
    fix kv x
    assume "kv \<in> set kvs"
      and "\<exists>obj. getitem_str (JObj kvs) (fst kv) = Inr obj \<and> ?row obj x"
    then show "?row (snd kv) x"
      using get [of kv] by (auto simp del: getitem_str.simps)
  qed
  have objs_wf: "wf_json x" if "x \<in> set json_objs" for x
  proof -
    from that obtain i where i: "i < length json_objs" "x = json_objs ! i"
      by (auto simp: in_set_conv_nth)
    with rows' have len: "i < length kvs" and row: "?row (snd (kvs ! i)) x"
      by (auto simp: list_all2_conv_all_nth)
    from row obtain prompt completion where
      c: "getitem_str (snd (kvs ! i)) ''reasoning_required_pred'' = Inr completion"
      and x: "x = JObj [(''input'', JStr prompt), (''output'', completion)]"
      by blast
    have "wf_json (snd (kvs ! i))" using wf len by simp
    moreover from c obtain fields where
      "snd (kvs ! i) = JObj fields" "map_of fields ''reasoning_required_pred'' = Some completion"
      by (cases "snd (kvs ! i)") (auto split: option.splits)
    ultimately have "wf_json completion"
      by (auto simp: list_all_iff dest!: map_of_SomeD)
    then show ?thesis using x by simp
  qed
  let ?content = "concat (map (\<lambda>x. json_dumps x @ [newline]) json_objs)"
  have lines: "text_lines [] ?content = map json_dumps json_objs"
    using text_lines_concat [of "map json_dumps json_objs"] objs_wf
    by (simp add: json_dumps_no_newline comp_def)
  have "convert_to_jsonl loads data_path output_path fs =
      (Inr json_objs, fs\<lparr>files := (files fs)(output_path \<mapsto> ?content)\<rparr>)"
    using assms(1) run
    by (simp add: convert_to_jsonl_def write_jsonl_content [OF assms(4)])
  with rows' lines show ?thesis by blast
qed

text \<open>Claim C2, witness: the two sample records, written over the older output file in the
  current directory.\<close>

theorem convert_to_jsonl_lines_witness:
  "fst (convert_to_jsonl (loads_only sample_data) ''data.json'' ''out.jsonl'' (one_file sample_data)) =
     Inr [JObj [(''input'', JStr sample_prompt), (''output'', JStr ''yes'')],
          JObj [(''input'', JStr sample_prompt), (''output'', JStr ''no'')]] \<and>
   files (snd (convert_to_jsonl (loads_only sample_data) ''data.json'' ''out.jsonl''
       (one_file sample_data))) ''out.jsonl'' =
     Some (json_dumps (JObj [(''input'', JStr sample_prompt), (''output'', JStr ''yes'')]) @ [newline] @
           json_dumps (JObj [(''input'', JStr sample_prompt), (''output'', JStr ''no'')]) @ [newline]) \<and>
   text_lines []
     (json_dumps (JObj [(''input'', JStr sample_prompt), (''output'', JStr ''yes'')]) @ [newline] @
      json_dumps (JObj [(''input'', JStr sample_prompt), (''output'', JStr ''no'')]) @ [newline]) =
     [json_dumps (JObj [(''input'', JStr sample_prompt), (''output'', JStr ''yes'')]),
      json_dumps (JObj [(''input'', JStr sample_prompt), (''output'', JStr ''no'')])]"
proof -
  let ?kvs = "[(''11'', sample_record), (''12'', relabelled_record)]"
  have load: "json_load (loads_only sample_data) (one_file sample_data) ''data.json'' = Inr (JObj ?kvs)"
    by (simp add: json_load_one_file) (simp add: sample_data_def)
  have wf: "wf_json (JObj ?kvs)"
    by (simp add: sample_record_def relabelled_record_def)
  have ok: "\<forall>kv \<in> set ?kvs. \<exists>prompt completion. form_question (snd kv) = Inr prompt \<and>
           getitem_str (snd kv) ''reasoning_required_pred'' = Inr completion"
    by (simp add: form_question_sample_record form_question_relabelled_record rrp_sample)
  from convert_to_jsonl_lines [OF load wf ok open_wt_one_file] obtain json_objs content where
    run: "convert_to_jsonl (loads_only sample_data) ''data.json'' ''out.jsonl'' (one_file sample_data) =
       (Inr json_objs,
        (one_file sample_data)\<lparr>files := (files (one_file sample_data))(''out.jsonl'' \<mapsto> content)\<rparr>)"
    and content: "content = concat (map (\<lambda>x. json_dumps x @ [newline]) json_objs)"
    and lines: "text_lines [] content = map json_dumps json_objs"
    by blast
  from run convert_sample_data have objs: "json_objs =
     [JObj [(''input'', JStr sample_prompt), (''output'', JStr ''yes'')],
      JObj [(''input'', JStr sample_prompt), (''output'', JStr ''no'')]]"
    by simp
  show ?thesis
    using run lines unfolding content objs by simp
qed

text \<open>Claim C5 as stated fails, in two ways. A record without \<^verbatim>\<open>CONTEXTS\<close> and with an
  empty list of labels is converted, because \<^verbatim>\<open>obj['CONTEXTS']\<close> is only looked up inside
  the loop over the labels. And when a record without \<^verbatim>\<open>QUESTION\<close> comes after a record
  that has all four keys and a number for labels, what comes out is the TypeError of the
  earlier record, not the error of a lookup.\<close>

theorem convert_to_jsonl_missing_contexts_counterexample:
  "getitem_str bare_data ''21'' = Inr bare_record \<and>
   lacks bare_record ''CONTEXTS'' \<and>
   fst (convert_to_jsonl (loads_only bare_data) ''data.json'' ''out.jsonl'' (one_file bare_data)) =
     Inr [JObj [(''input'',
                 JStr (''QUESTION:Why?'' @ [newline] @ ''CONTEXT: '' @
                   ''TARGET: the answer to the question given the context is (yes|no|maybe): '')),
                (''output'', JStr ''maybe'')]] \<and>
   getitem_str mixed_data ''51'' = Inr unlabelled_record \<and>
   has_fields unlabelled_record \<and>
   getitem_str mixed_data ''52'' = Inr questionless_record \<and>
   lacks questionless_record ''QUESTION'' \<and>
   fst (convert_to_jsonl (loads_only mixed_data) ''data.json'' ''out.jsonl'' (one_file mixed_data)) =
     Inl TypeError"
proof (intro conjI)
  show "getitem_str bare_data ''21'' = Inr bare_record"
    by (simp add: bare_data_def)
  show "lacks bare_record ''CONTEXTS''"
    by (simp add: lacks_def bare_record_def)
  show "fst (convert_to_jsonl (loads_only bare_data) ''data.json'' ''out.jsonl'' (one_file bare_data)) =
     Inr [JObj [(''input'',
                 JStr (''QUESTION:Why?'' @ [newline] @ ''CONTEXT: '' @
                   ''TARGET: the answer to the question given the context is (yes|no|maybe): '')),
                (''output'', JStr ''maybe'')]]"
    by (simp add: convert_to_jsonl_def json_load_one_file bare_data_def
        form_question_bare_record rrp_sample write_jsonl_def open_wt_one_file)
  show "getitem_str mixed_data ''51'' = Inr unlabelled_record"
    by (simp add: mixed_data_def)
  show "has_fields unlabelled_record"
    by (simp add: has_fields_def has_key_def unlabelled_record_def)
  show "getitem_str mixed_data ''52'' = Inr questionless_record"
    by (simp add: mixed_data_def)
  show "lacks questionless_record ''QUESTION''"
    by (simp add: lacks_def questionless_record_def)
  have "form_question unlabelled_record = Inl TypeError"
    by (simp add: form_question_def unlabelled_record_def)
  then show "fst (convert_to_jsonl (loads_only mixed_data) ''data.json'' ''out.jsonl''
      (one_file mixed_data)) = Inl TypeError"
    by (simp add: convert_to_jsonl_def json_load_one_file mixed_data_def)
qed

text \<open>Claim C5, amended. When the loaded dictionary contains a record that lacks
  \<^verbatim>\<open>QUESTION\<close>, \<^verbatim>\<open>LABELS\<close> or \<^verbatim>\<open>reasoning_required_pred\<close>, or that lacks
  \<^verbatim>\<open>CONTEXTS\<close> while its labels are not empty, \<^verbatim>\<open>convert_to_jsonl\<close> returns no result
  and leaves the file system as it was: it ends with the exception of the first record, in
  key order, whose conversion raises one, passed on as it is; so when the record that
  lacks the key is the first to fail, its own exception comes out. That exception is the
  KeyError of the lookup of the missing key whenever the steps before that lookup succeed:
  for \<^verbatim>\<open>QUESTION\<close> always, for \<^verbatim>\<open>LABELS\<close> when the question is there, for
  \<^verbatim>\<open>CONTEXTS\<close> when the question is there and the labels can be enumerated and are not
  empty, for \<^verbatim>\<open>reasoning_required_pred\<close> when \<^verbatim>\<open>form_question\<close> returns.\<close>

theorem convert_to_jsonl_missing_key_fails:
  assumes "json_load loads fs data_path = Inr (JObj kvs)"
    and "map_of kvs k = Some obj"
    and "lacks obj ''QUESTION'' \<or> lacks obj ''LABELS'' \<or>
       lacks obj ''reasoning_required_pred'' \<or>
       (lacks obj ''CONTEXTS'' \<and>
        (\<exists>labels. getitem_str obj ''LABELS'' = Inr labels \<and> py_iter labels \<noteq> Inr []))"
  shows "(\<exists>e. convert_to_jsonl loads data_path output_path fs = (Inl e, fs) \<and>
        first_error (JObj kvs) (map fst kvs) = Some e) \<and>
     (\<forall>before after. map fst kvs = before @ k # after \<and> first_error (JObj kvs) before = None \<longrightarrow>
        (\<exists>e. record_error obj = Some e \<and>
           convert_to_jsonl loads data_path output_path fs = (Inl e, fs))) \<and>
     (lacks obj ''QUESTION'' \<longrightarrow> record_error obj = Some (KeyError (JStr ''QUESTION''))) \<and>
     (has_key obj ''QUESTION'' \<and> lacks obj ''LABELS'' \<longrightarrow>
        record_error obj = Some (KeyError (JStr ''LABELS''))) \<and>
     (has_key obj ''QUESTION'' \<and> lacks obj ''CONTEXTS'' \<and>
      (\<exists>labels label rest. getitem_str obj ''LABELS'' = Inr labels \<and>
         py_iter labels = Inr (label # rest)) \<longrightarrow>
        record_error obj = Some (KeyError (JStr ''CONTEXTS''))) \<and>
     ((\<exists>prompt. form_question obj = Inr prompt) \<and> lacks obj ''reasoning_required_pred'' \<longrightarrow>
        record_error obj = Some (KeyError (JStr ''reasoning_required_pred'')))"
proof (intro conjI)
  from missing_key_record_error [OF assms(3)] obtain e0 where e0: "record_error obj = Some e0" ..
  have k: "k \<in> set (map fst kvs)"
    using map_of_SomeD [OF assms(2)] by force
  have get: "getitem_str (JObj kvs) k = Inr obj"
    using assms(2) by simp
  from convert_loop_fails [OF k get e0] obtain e where
    "convert_loop (JObj kvs) (map fst kvs) [] = Inl e" by blast
  then have first: "first_error (JObj kvs) (map fst kvs) = Some e"
    by (simp only: convert_loop_first_error)
  with convert_to_jsonl_first_error [OF assms(1) first]
  show "\<exists>e. convert_to_jsonl loads data_path output_path fs = (Inl e, fs) \<and>
        first_error (JObj kvs) (map fst kvs) = Some e"
    by blast
  show "\<forall>before after. map fst kvs = before @ k # after \<and> first_error (JObj kvs) before = None \<longrightarrow>
        (\<exists>e. record_error obj = Some e \<and>
           convert_to_jsonl loads data_path output_path fs = (Inl e, fs))"
  proof (intro allI impI)
    fix before after
    assume split: "map fst kvs = before @ k # after \<and> first_error (JObj kvs) before = None"
    have "first_error (JObj kvs) (k # after) = Some e0"
      using get e0 by (simp del: getitem_str.simps)
    with split have "first_error (JObj kvs) (map fst kvs) = Some e0"
      by (simp add: first_error_append del: first_error.simps)
    from convert_to_jsonl_first_error [OF assms(1) this] e0
    show "\<exists>e. record_error obj = Some e \<and>
           convert_to_jsonl loads data_path output_path fs = (Inl e, fs)"
      by blast
  qed
  show "lacks obj ''QUESTION'' \<longrightarrow> record_error obj = Some (KeyError (JStr ''QUESTION''))"
    by (simp add: lacks_question_error)
  show "has_key obj ''QUESTION'' \<and> lacks obj ''LABELS'' \<longrightarrow>
        record_error obj = Some (KeyError (JStr ''LABELS''))"
    by (simp add: lacks_labels_error)
  show "has_key obj ''QUESTION'' \<and> lacks obj ''CONTEXTS'' \<and>
      (\<exists>labels label rest. getitem_str obj ''LABELS'' = Inr labels \<and>
         py_iter labels = Inr (label # rest)) \<longrightarrow>
        record_error obj = Some (KeyError (JStr ''CONTEXTS''))"
    by (blast intro: lacks_contexts_error)
  show "(\<exists>prompt. form_question obj = Inr prompt) \<and> lacks obj ''reasoning_required_pred'' \<longrightarrow>
        record_error obj = Some (KeyError (JStr ''reasoning_required_pred''))"
    by (blast intro: lacks_pred_error)
qed

text \<open>Claim C5, witness: the second record has one label and no contexts, the first one
  converts; the KeyError of the lookup of \<^verbatim>\<open>CONTEXTS\<close> comes out.\<close>

theorem convert_to_jsonl_missing_key_fails_witness:
  "convert_to_jsonl (loads_only contextless_data) ''data.json'' ''out.jsonl''
     (one_file contextless_data) =
   (Inl (KeyError (JStr ''CONTEXTS'')), one_file contextless_data) \<and>
   record_error contextless_record = Some (KeyError (JStr ''CONTEXTS''))"
proof -
  let ?kvs = "[(''41'', sample_record), (''42'', contextless_record)]"
  have load: "json_load (loads_only contextless_data) (one_file contextless_data) ''data.json'' =
      Inr (JObj ?kvs)"
    by (simp add: json_load_one_file) (simp add: contextless_data_def)
  have rec: "map_of ?kvs ''42'' = Some contextless_record"
    by simp
  have lack: "lacks contextless_record ''QUESTION'' \<or> lacks contextless_record ''LABELS'' \<or>
       lacks contextless_record ''reasoning_required_pred'' \<or>
       (lacks contextless_record ''CONTEXTS'' \<and>
        (\<exists>labels. getitem_str contextless_record ''LABELS'' = Inr labels \<and> py_iter labels \<noteq> Inr []))"
    by (simp add: lacks_def contextless_record_def)
  note all = convert_to_jsonl_missing_key_fails [OF load rec lack, of "''out.jsonl''"]
  have split: "map fst ?kvs = [''41''] @ ''42'' # [] \<and> first_error (JObj ?kvs) [''41''] = None"
    by (simp add: record_error_def form_question_sample_record rrp_sample)
  from all [THEN conjunct2, THEN conjunct1, THEN spec, THEN spec, THEN mp, OF split]
  obtain e where e: "record_error contextless_record = Some e"
    "convert_to_jsonl (loads_only contextless_data) ''data.json'' ''out.jsonl''
       (one_file contextless_data) = (Inl e, one_file contextless_data)"
    by blast
  have "record_error contextless_record = Some (KeyError (JStr ''CONTEXTS''))"
    by (simp add: record_error_def form_question_contextless_record)
  with e show ?thesis by simp
qed

text \<open>Claim C10. When \<^verbatim>\<open>form_question\<close> or the lookup of \<^verbatim>\<open>reasoning_required_pred\<close>
  fails on some record of the loaded dictionary, \<^verbatim>\<open>convert_to_jsonl\<close> ends with an
  exception and leaves the file system, and so the file at \<open>output_path\<close>, unchanged: the
  write comes after the loop over all records.\<close>

theorem convert_to_jsonl_atomic:
  assumes "json_load loads fs data_path = Inr (JObj kvs)"
    and "map_of kvs k = Some obj"
    and "form_question obj = Inl e \<or> getitem_str obj ''reasoning_required_pred'' = Inl e"
  shows "snd (convert_to_jsonl loads data_path output_path fs) = fs \<and>
     (\<exists>e'. fst (convert_to_jsonl loads data_path output_path fs) = Inl e')"
proof -
  have "record_error obj \<noteq> None"
    using assms(3) by (auto simp: record_error_None)
  then obtain e0 where "record_error obj = Some e0" by blast
  from convert_to_jsonl_fails [OF assms(1,2) this, of output_path] obtain e' where
    "convert_to_jsonl loads data_path output_path fs = (Inl e', fs)" by blast
  then show ?thesis by simp
qed

text \<open>Claim C10, witness: the second record has a label more than contexts; the older output
  file keeps its text.\<close>

theorem convert_to_jsonl_atomic_witness:
  "snd (convert_to_jsonl (loads_only broken_data) ''data.json'' ''out.jsonl'' (one_file broken_data)) =
     one_file broken_data \<and>
   files (one_file broken_data) ''out.jsonl'' = Some ''old'' \<and>
   (\<exists>e'. fst (convert_to_jsonl (loads_only broken_data) ''data.json'' ''out.jsonl''
       (one_file broken_data)) = Inl e')"
proof -
  let ?kvs = "[(''31'', sample_record), (''32'', short_record)]"
  have load: "json_load (loads_only broken_data) (one_file broken_data) ''data.json'' = Inr (JObj ?kvs)"
    by (simp add: json_load_one_file) (simp add: broken_data_def)
  have rec: "map_of ?kvs ''32'' = Some short_record"
    by simp
  have fail: "form_question short_record = Inl IndexError \<or>
      getitem_str short_record ''reasoning_required_pred'' = Inl IndexError"
    by (simp add: form_question_short_record)
  show ?thesis
    using convert_to_jsonl_atomic [OF load rec fail, of "''out.jsonl''"]
    by (simp add: one_file_def)
qed

section \<open>Properties of the Mixtral notebook\<close>

text \<open>Claim C3. For a row whose \<^verbatim>\<open>note\<close> is a string, \<^verbatim>\<open>formatting_func\<close> returns the fixed
  heading followed by the note; and two rows whose \<^verbatim>\<open>note\<close> lookups agree get the same
  result, whatever their other columns hold.\<close>

theorem formatting_func_template:
  "(getitem_str example ''note'' = Inr (JStr note) \<longrightarrow>
      formatting_func example =
        Inr (''### The following is a note by Eevee the Dog: '' @ note)) \<and>
   (getitem_str example ''note'' = getitem_str example' ''note'' \<longrightarrow>
      formatting_func example = formatting_func example')"
  by (simp add: formatting_func_def)

text \<open>Claim C3, witness: two rows with the same note and different other columns.\<close>

theorem formatting_func_template_witness:
  "formatting_func sample_note = Inr ''### The following is a note by Eevee the Dog: Woof.'' \<and>
   formatting_func sample_note = formatting_func retitled_note"
proof -
  have n: "getitem_str sample_note ''note'' = Inr (JStr ''Woof.'')"
    by (simp add: sample_note_def)
  have same: "getitem_str sample_note ''note'' = getitem_str retitled_note ''note''"
    by (simp add: sample_note_def retitled_note_def)
  note both = formatting_func_template [of sample_note "''Woof.''" retitled_note]
  have "formatting_func sample_note =
      Inr (''### The following is a note by Eevee the Dog: '' @ ''Woof.'')"
    using both [THEN conjunct1] n by (rule mp)
  moreover have "formatting_func sample_note = formatting_func retitled_note"
    using both [THEN conjunct2] same by (rule mp)
  ultimately show ?thesis by simp
qed

text \<open>Claim C4. When the prompt can be formatted and the tokenizer returns a dictionary with
  \<^verbatim>\<open>input_ids\<close>, \<^verbatim>\<open>generate_and_tokenize_prompt2\<close> returns that dictionary with the field
  \<^verbatim>\<open>labels\<close> set to the sequence under \<^verbatim>\<open>input_ids\<close>; every other field is as the
  tokenizer gave it, and every sequence in the result is one of the tokenizer's.\<close>

theorem generate_and_tokenize_prompt2_adds_labels:
  assumes "formatting_func prompt = Inr text"
    and "tokenizer text True max_length ''max_length'' = Inr result"
    and "result ''input_ids'' = Some input_ids"
  shows "\<exists>encoding. generate_and_tokenize_prompt2 tokenizer prompt = Inr encoding \<and>
     encoding ''labels'' = Some input_ids \<and>
     (\<forall>field. field \<noteq> ''labels'' \<longrightarrow> encoding field = result field) \<and>
     ran encoding \<subseteq> ran result"
proof -
  have run: "generate_and_tokenize_prompt2 tokenizer prompt = Inr (result(''labels'' \<mapsto> input_ids))"
    using assms by (simp add: generate_and_tokenize_prompt2_def)
  have "ran (result(''labels'' \<mapsto> input_ids)) \<subseteq> ran result"
    using assms(3) by (auto simp: ran_def)
  with run show ?thesis by simp
qed

text \<open>Claim C4, witness: the tokenizer that gives each character its code point.\<close>

theorem generate_and_tokenize_prompt2_adds_labels_witness:
  "\<exists>encoding. generate_and_tokenize_prompt2 codes_tokenizer sample_note = Inr encoding \<and>
     encoding ''labels'' = encoding ''input_ids'' \<and>
     encoding ''attention_mask'' =
       Some (map (\<lambda>c. 1) ''### The following is a note by Eevee the Dog: Woof.'') \<and>
     encoding ''token_type_ids'' = None"
proof -
  let ?text = "''### The following is a note by Eevee the Dog: Woof.''"
  have a: "formatting_func sample_note = Inr ?text"
    by (simp add: formatting_func_def sample_note_def)
  have b: "codes_tokenizer ?text True max_length ''max_length'' =
      Inr [''input_ids'' \<mapsto> map of_char ?text, ''attention_mask'' \<mapsto> map (\<lambda>c. 1) ?text]"
    by (simp add: codes_tokenizer_def max_length_def)
  have c: "[''input_ids'' \<mapsto> map of_char ?text, ''attention_mask'' \<mapsto> map (\<lambda>c. 1) ?text] ''input_ids'' =
      Some (map of_char ?text :: int list)"
    by simp
  from generate_and_tokenize_prompt2_adds_labels
    [of sample_note ?text codes_tokenizer
      "[''input_ids'' \<mapsto> map of_char ?text, ''attention_mask'' \<mapsto> map (\<lambda>c. 1) ?text]"
      "map of_char ?text", OF a b c]
  obtain encoding where
    e: "generate_and_tokenize_prompt2 codes_tokenizer sample_note = Inr encoding \<and>
      encoding ''labels'' = Some (map of_char ?text) \<and>
      (\<forall>field. field \<noteq> ''labels'' \<longrightarrow> encoding field =
         [''input_ids'' \<mapsto> map of_char ?text, ''attention_mask'' \<mapsto> map (\<lambda>c. 1) ?text] field) \<and>
      ran encoding \<subseteq>
        ran [''input_ids'' \<mapsto> map of_char ?text, ''attention_mask'' \<mapsto> map (\<lambda>c. 1) ?text]" ..
  note run = e [THEN conjunct1]
    and labels = e [THEN conjunct2, THEN conjunct1]
    and frame = e [THEN conjunct2, THEN conjunct2, THEN conjunct1]
  have ids: "encoding ''input_ids'' = Some (map of_char ?text)"
    using frame [THEN spec, of "''input_ids''"] by simp
  have mask: "encoding ''attention_mask'' = Some (map (\<lambda>c. 1) ?text)"
    using frame [THEN spec, of "''attention_mask''"] by simp
  have none: "encoding ''token_type_ids'' = None"
    using frame [THEN spec, of "''token_type_ids''"] by simp
  have same: "encoding ''labels'' = encoding ''input_ids''"
    by (simp only: labels ids)
  show ?thesis
    by (intro exI [of _ encoding] conjI) (fact run same mask none)+
qed

text \<open>Claim C6. The configuration that \<^verbatim>\<open>get_peft_model\<close> receives has \<^verbatim>\<open>r=32\<close> and
  \<^verbatim>\<open>lora_alpha=64\<close>, and the arguments that \<^verbatim>\<open>Trainer\<close> receives have
  \<^verbatim>\<open>max_steps=300\<close>, \<^verbatim>\<open>per_device_train_batch_size=2\<close> and \<^verbatim>\<open>learning_rate=2.5e-5\<close>
  (whose \<^verbatim>\<open>repr\<close> is \<^verbatim>\<open>2.5e-05\<close>), whatever the library functions, the model, the
  datasets and the time of the run are.\<close>

theorem training_configuration_verbatim:
  "(\<exists>lora. r lora = 32 \<and> lora_alpha lora = 64 \<and>
      (\<forall>get_peft_model model. lora_cell get_peft_model model = get_peft_model model lora)) \<and>
   (\<exists>args. max_steps args = 300 \<and> per_device_train_batch_size args = 2 \<and>
      learning_rate args = ''2.5e-05'' \<and>
      (\<forall>Trainer model train_dataset eval_dataset data_collator.
         trainer_cell Trainer model train_dataset eval_dataset data_collator now =
           Trainer model train_dataset eval_dataset args data_collator))"
proof (intro conjI)
  show "\<exists>lora. r lora = 32 \<and> lora_alpha lora = 64 \<and>
      (\<forall>get_peft_model model. lora_cell get_peft_model model = get_peft_model model lora)"
    by (rule exI [of _ config]) (simp add: config_def lora_cell_def)
  show "\<exists>args. max_steps args = 300 \<and> per_device_train_batch_size args = 2 \<and>
      learning_rate args = ''2.5e-05'' \<and>
      (\<forall>Trainer model train_dataset eval_dataset data_collator.
         trainer_cell Trainer model train_dataset eval_dataset data_collator now =
           Trainer model train_dataset eval_dataset args data_collator)"
    by (rule exI [of _ "training_arguments now"])
      (simp add: training_arguments_def trainer_cell_def)
qed

section \<open>Properties of the BioMistral notebook\<close>

text \<open>Claim C7. When \<^verbatim>\<open>model.generate\<close>, called on the tokenized prompt with
  \<^verbatim>\<open>max_new_tokens=100\<close> and \<^verbatim>\<open>repetition_penalty=1.15\<close>, returns at least one sequence,
  the cell ends normally and what it adds to the standard output is the decoding of the
  first sequence, with special tokens skipped, and the newline that \<^verbatim>\<open>print\<close> ends with.\<close>

theorem run_the_model_prints_decoded_sequence:
  assumes "generate (to (eval_tokenizer ''The best way to '' ''pt'') ''cuda'') 100 ''1.15'' =
     Inr (first # others)"
  shows "run_the_model eval_tokenizer to generate decode stdout =
     (Inr (), stdout @ decode first True @ [newline])"
  using assms by (simp add: run_the_model_def)

text \<open>Claim C7, witness: a generator that repeats its input.\<close>

theorem run_the_model_prints_decoded_sequence_witness:
  "run_the_model codes_encode same_device echo_generate codes_decode ''> '' =
     (Inr (), ''> The best way to The best way to '' @ [newline])"
proof -
  let ?ids = "map of_char ''The best way to '' :: int list"
  have gen: "echo_generate (same_device (codes_encode ''The best way to '' ''pt'') ''cuda'') 100 ''1.15'' =
      Inr ((?ids @ ?ids) # [])"
    by (simp add: echo_generate_def same_device_def codes_encode_def)
  have dec: "codes_decode (?ids @ ?ids) True = ''The best way to The best way to ''"
    by code_simp
  show ?thesis
    using run_the_model_prints_decoded_sequence
      [of echo_generate same_device codes_encode "?ids @ ?ids" "[]" codes_decode "''> ''", OF gen]
    by (simp only: dec) simp
qed

end
